theory Spec2Isabelle
  imports Main "HOL-Library.AList"
begin

section \<open>Shared types of the tailx reader\<close>

text \<open>
  Modelled from the spec: the lifecycle constants \<open>reader.StatusInit\<close>,
  \<open>reader.StatusStopped\<close>, \<open>reader.StatusStopping\<close> and \<open>reader.StatusRunning\<close> are
  declared outside \<open>tailx.go\<close>. The spec lists the four lifecycle states; the model
  keeps them as four distinct constructors in place of their \<open>int32\<close> values.
\<close>

datatype status = StatusInit | StatusStopped | StatusStopping | StatusRunning

text \<open>
  Go errors. \<open>EOF\<close> is \<open>io.EOF\<close>, \<open>NotExist\<close> is an error for which
  \<open>os.IsNotExist\<close> answers true, \<open>Failure\<close> is any other error with its message.
\<close>

datatype error = EOF | NotExist string | Failure string

definition IsNotExist :: "error \<Rightarrow> bool" where
  "IsNotExist e = (case e of NotExist _ \<Rightarrow> True | _ \<Rightarrow> False)"

definition Error_text :: "error \<Rightarrow> string" where
  "Error_text e = (case e of EOF \<Rightarrow> ''EOF'' | NotExist m \<Rightarrow> m | Failure m \<Rightarrow> m)"


record Result =
  result :: string
  logpath :: string

text \<open>What \<open>os.Stat\<close> reports about a file; times and durations are nanoseconds.\<close>

record FileInfo =
  IsDir :: bool
  ModTime :: int

text \<open>
  Modelled from the spec: \<open>reader.BufReader\<close>, the Line Source, is declared outside
  \<open>tailx.go\<close>. The spec treats it as an external collaborator with a sequential line
  read, offset sync, mode configuration and close. The model keeps what \<open>tailx.go\<close>
  does to it: whether \<open>Close\<close> was called, the head pattern given to \<open>SetMode\<close>, the
  name of its sub-meta and the number of \<open>SyncMeta\<close> calls. What \<open>ReadLine\<close> returns is
  an input of the run loop.
\<close>

record BufReader =
  br_closed :: bool
  br_mode :: "string option"
  br_Meta :: string
  br_synced :: nat

section \<open>ActiveReader\<close>

text \<open>
  The struct \<open>ActiveReader\<close>. The two channel fields are references to the channels
  of the owning \<open>Reader\<close>; what is sent on them appears as effects of the run loop.
  \<open>inactive\<close> is an \<open>int32\<close> that only ever holds 0 or 1; \<open>emptyLineCnt\<close> is a Go
  \<open>int\<close> incremented at most once per second. \<open>stats\<close> is \<open>stats.LastError\<close>.
\<close>

record ActiveReader =
  br :: BufReader
  realpath :: string
  originpath :: string
  readcache :: string
  status :: status
  inactive :: int
  runnerName :: string
  emptyLineCnt :: int
  stats :: string

text \<open>\<open>atomic.CompareAndSwapInt32\<close> on a status field: the new value and whether it swapped.\<close>

definition CompareAndSwap :: "status \<Rightarrow> status \<Rightarrow> status \<Rightarrow> status \<times> bool" where
  "CompareAndSwap cur old new = (if cur = old then (new, True) else (cur, False))"

text \<open>
  \<open>NewActiveReader\<close>. The three constructors it calls (\<open>reader.NewMeta\<close>,
  \<open>reader.NewSingleFile\<close>, \<open>reader.NewReaderSize\<close>) are external and may fail; their
  outcomes are inputs. The sub-meta is named after the real path with every path
  separator replaced by an underscore.
\<close>

record NewEnv =
  NewMeta_err :: "error option"
  NewSingleFile_err :: "error option"
  NewReaderSize_err :: "error option"

definition rpath_of :: "string \<Rightarrow> string" where
  "rpath_of realPath = map (\<lambda>c. if c = CHR ''/'' then CHR ''_'' else c) realPath"

definition NewActiveReader ::
  "string \<Rightarrow> string \<Rightarrow> string \<Rightarrow> string \<Rightarrow> NewEnv \<Rightarrow> error + ActiveReader" where
  "NewActiveReader originPath realPath whence metaRunnerName env =
     (case NewMeta_err env of Some e \<Rightarrow> Inl e
      | None \<Rightarrow>
     (case NewSingleFile_err env of Some e \<Rightarrow> Inl e
      | None \<Rightarrow>
     (case NewReaderSize_err env of Some e \<Rightarrow> Inl e
      | None \<Rightarrow>
        Inr \<lparr> br = \<lparr> br_closed = False, br_mode = None,
                     br_Meta = rpath_of realPath, br_synced = 0 \<rparr>,
              realpath = realPath,
              originpath = originPath,
              readcache = [],
              status = StatusInit,
              inactive = 1,
              runnerName = metaRunnerName,
              emptyLineCnt = 0,
              stats = [] \<rparr>)))"

subsection \<open>The run loop\<close>

text \<open>
  \<open>Run\<close> is a loop that may go on forever, so it is modelled as a step function over the
  control point of its goroutine:
  \<^item> \<open>NotStarted\<close>: before the compare-and-swap at the entry of \<open>Run\<close>;
  \<^item> \<open>LoopTop\<close>: at the head of the outer \<open>for\<close>;
  \<^item> \<open>Sending\<close>: at the head of the inner \<open>for\<close>, which hands the pending line over;
  \<^item> \<open>Returned\<close>: \<open>Run\<close> has returned;
  \<^item> \<open>Panicked\<close>: the goroutine sent on a closed channel.

  A step takes what the environment answers where the code asks: the line and error of
  \<open>br.ReadLine()\<close>, and the case the \<open>select\<close> takes. Log calls are left out. The
  effects of a step are listed in order.
\<close>

datatype loc = NotStarted | LoopTop | Sending | Returned | Panicked

datatype select_case = SendDone | TimerTick | SendOnClosed

datatype effect =
    ReadLineCalled
  | Delivered Result
  | ErrorSent error
  | Slept nat

record run_input =
  rd_line :: string
  rd_err :: "error option"
  sel :: select_case

text \<open>The two loads of the status that both loops start with, and the swap that follows them.\<close>

definition stop_observed :: "ActiveReader \<Rightarrow> bool" where
  "stop_observed ar = (status ar = StatusStopped \<or> status ar = StatusStopping)"

definition finalize :: "ActiveReader \<Rightarrow> ActiveReader" where
  "finalize ar = ar\<lparr>status := fst (CompareAndSwap (status ar) StatusStopping StatusStopped)\<rparr>"

text \<open>The entry of \<open>Run\<close>: it goes on only from \<open>StatusInit\<close>.\<close>

definition Run_enter :: "ActiveReader \<Rightarrow> ActiveReader \<times> loc" where
  "Run_enter ar =
     (case CompareAndSwap (status ar) StatusInit StatusRunning of
        (s, True) \<Rightarrow> (ar\<lparr>status := s\<rparr>, LoopTop)
      | (s, False) \<Rightarrow> (ar, Returned))"

text \<open>
  One pass through the outer loop, up to the next \<open>continue\<close> or to the inner loop.
  \<open>Run_after_read\<close> is the part after a read that returned no error (\<open>eof\<close> false) or
  \<open>io.EOF\<close> (\<open>eof\<close> true): an empty line counts as an empty read and sleeps, a
  nonempty one goes to the inner loop.
\<close>

definition Run_after_read :: "bool \<Rightarrow> ActiveReader \<Rightarrow> (ActiveReader \<times> loc) \<times> effect list" where
  "Run_after_read eof ar1 =
     (if readcache ar1 = [] then
        (let ar2 = ar1\<lparr>emptyLineCnt := emptyLineCnt ar1 + 1\<rparr> in
         if eof then ((ar2\<lparr>inactive := 1\<rparr>, LoopTop), [ReadLineCalled, Slept 5])
         else
           (((if emptyLineCnt ar2 > 60 * 60 then ar2\<lparr>inactive := 1\<rparr> else ar2), LoopTop),
            [ReadLineCalled, Slept 1]))
      else ((ar1, Sending), [ReadLineCalled]))"

definition Run_outer :: "run_input \<Rightarrow> ActiveReader \<Rightarrow> (ActiveReader \<times> loc) \<times> effect list" where
  "Run_outer i ar =
     (if stop_observed ar then ((finalize ar, Returned), [])
      else if readcache ar = [] then
        (let ar1 = ar\<lparr>readcache := rd_line i\<rparr> in
         case rd_err i of
           None \<Rightarrow> Run_after_read False ar1
         | Some err \<Rightarrow>
             if err \<noteq> EOF then
               ((ar1\<lparr>stats := Error_text err\<rparr>, LoopTop),
                [ReadLineCalled, ErrorSent err, Slept 3])
             else Run_after_read True ar1)
      else ((ar, Sending), []))"

text \<open>
  One pass through the inner loop: it marks the tailer active, checks for a stop, and
  offers the pending line on the result channel against the ticker.
\<close>

definition Run_inner :: "run_input \<Rightarrow> ActiveReader \<Rightarrow> (ActiveReader \<times> loc) \<times> effect list" where
  "Run_inner i ar =
     (if readcache ar = [] then ((ar, LoopTop), [])
      else
        (let ar1 = ar\<lparr>inactive := 0, emptyLineCnt := 0\<rparr> in
         if stop_observed ar1 then ((finalize ar1, Returned), [])
         else
           (case sel i of
              SendDone \<Rightarrow>
                ((ar1\<lparr>readcache := []\<rparr>, Sending),
                 [Delivered \<lparr>result = readcache ar1, logpath = originpath ar1\<rparr>])
            | TimerTick \<Rightarrow> ((ar1, Sending), [])
            | SendOnClosed \<Rightarrow> ((ar1, Panicked), []))))"

definition Run_step :: "run_input \<Rightarrow> ActiveReader \<times> loc \<Rightarrow> (ActiveReader \<times> loc) \<times> effect list" where
  "Run_step i s =
     (case snd s of
        NotStarted \<Rightarrow> (Run_enter (fst s), [])
      | LoopTop \<Rightarrow> Run_outer i (fst s)
      | Sending \<Rightarrow> Run_inner i (fst s)
      | Returned \<Rightarrow> (s, [])
      | Panicked \<Rightarrow> (s, []))"

text \<open>
  Between two steps of the run loop another goroutine may call \<open>Close\<close>, whose
  compare-and-swap asks the loop to stop.
\<close>

datatype event = Step run_input | StopRequested

definition request_stop :: "ActiveReader \<Rightarrow> ActiveReader" where
  "request_stop ar = ar\<lparr>status := fst (CompareAndSwap (status ar) StatusRunning StatusStopping)\<rparr>"

fun Run_events :: "event list \<Rightarrow> ActiveReader \<times> loc \<Rightarrow> (ActiveReader \<times> loc) \<times> effect list" where
  "Run_events [] s = (s, [])"
| "Run_events (Step i # es) s =
     (let (s1, out1) = Run_step i s; (s2, out2) = Run_events es s1 in (s2, out1 @ out2))"
| "Run_events (StopRequested # es) s = Run_events es (request_stop (fst s), snd s)"

subsection \<open>Close, SyncMeta, expired\<close>

text \<open>
  The wait of \<open>Close\<close> polls the status every 10 ms. \<open>stoppedAt n\<close> says whether the load
  after \<open>n\<close> sleeps reads \<open>StatusStopped\<close> (the run loop sets it). The result is the number
  of sleeps and whether the loop ended because the status was \<open>StatusStopped\<close>.
\<close>

function close_wait :: "(nat \<Rightarrow> bool) \<Rightarrow> nat \<Rightarrow> nat \<times> bool" where
  "close_wait stoppedAt cnt =
     (if stoppedAt cnt then (cnt, True)
      else if cnt + 1 > 300 then (cnt, False)
      else close_wait stoppedAt (cnt + 1))"
  by pat_completeness auto
termination
  by (relation "measure (\<lambda>(stoppedAt, cnt). 301 - cnt)") auto

declare close_wait.simps [simp del]

text \<open>
  \<open>ActiveReader.Close\<close>: the closed tailer, the error of \<open>br.Close()\<close> and the number of
  10 ms sleeps. \<open>cerr\<close> is what \<open>br.Close()\<close> returns.
\<close>

definition ar_Close ::
  "ActiveReader \<Rightarrow> error option \<Rightarrow> (nat \<Rightarrow> bool) \<Rightarrow> ActiveReader \<times> error option \<times> nat" where
  "ar_Close ar cerr stoppedAt =
     (let ar1 = ar\<lparr>br := (br ar)\<lparr>br_closed := True\<rparr>\<rparr> in
      case CompareAndSwap (status ar1) StatusRunning StatusStopping of
        (s, False) \<Rightarrow> (ar1, cerr, 0)
      | (s, True) \<Rightarrow>
          (case close_wait stoppedAt 0 of
             (n, reached) \<Rightarrow>
               (ar1\<lparr>status := (if reached then StatusStopped else s)\<rparr>, cerr, n)))"

definition ar_SyncMeta :: "ActiveReader \<Rightarrow> ActiveReader \<times> string" where
  "ar_SyncMeta ar = (ar\<lparr>br := (br ar)\<lparr>br_synced := br_synced (br ar) + 1\<rparr>\<rparr>, readcache ar)"

text \<open>
  \<open>expired\<close>: \<open>st\<close> is what \<open>os.Stat(ar.realpath)\<close> returns and \<open>now\<close> what
  \<open>time.Now()\<close> returns.
\<close>

definition expired :: "ActiveReader \<Rightarrow> int \<Rightarrow> error + FileInfo \<Rightarrow> int \<Rightarrow> bool" where
  "expired ar expireDur st now =
     (case st of
        Inl err \<Rightarrow> (if IsNotExist err then True else False)
      | Inr fi \<Rightarrow> (if ModTime fi + expireDur < now \<and> inactive ar > 0 then True else False))"

section \<open>The Offset Store\<close>

text \<open>
  Modelled from the spec: \<open>reader.Meta\<close>, the Offset Store, is code of this repository
  outside \<open>tailx.go\<close>. The spec describes it as a durable opaque buffer, read and
  written as one buffer per watch, plus the registration and removal of per-file
  sub-metas. The model keeps the buffer with the size recorded when it was written, the
  number of completed writes, and the registered sub-metas. A failed call (an I/O error
  handed in by the caller of the model) leaves the store as it was.
\<close>

record Meta =
  Dir :: string
  RunnerName :: string
  buf_file :: "(string \<times> nat) option"
  buf_writes :: nat
  subMetas :: "(string \<times> string) list"

text \<open>Modelled from the spec: \<open>Meta.ReadBufMeta\<close>, the size recorded with the buffer.\<close>

definition ReadBufMeta :: "Meta \<Rightarrow> error + nat" where
  "ReadBufMeta m =
     (case buf_file m of
        None \<Rightarrow> Inl (NotExist ''buf.meta'')
      | Some (b, bufsize) \<Rightarrow> Inr bufsize)"

text \<open>Modelled from the spec: \<open>Meta.ReadBuf\<close> into a buffer of \<open>n\<close> bytes.\<close>

definition ReadBuf :: "Meta \<Rightarrow> nat \<Rightarrow> error + string" where
  "ReadBuf m n =
     (case buf_file m of
        None \<Rightarrow> Inl (NotExist ''buf.dat'')
      | Some (b, bufsize) \<Rightarrow> Inr (take n b))"

text \<open>
  Modelled from the spec: \<open>Meta.WriteBuf\<close> replaces the buffer as a whole and records
  \<open>bufsize\<close>; \<open>io\<close> is the I/O error it meets, if any.
\<close>

definition WriteBuf :: "Meta \<Rightarrow> string \<Rightarrow> nat \<Rightarrow> error option \<Rightarrow> Meta \<times> error option" where
  "WriteBuf m b bufsize io =
     (case io of
        Some e \<Rightarrow> (m, Some e)
      | None \<Rightarrow> (m\<lparr>buf_file := Some (b, bufsize), buf_writes := buf_writes m + 1\<rparr>, None))"

text \<open>Modelled from the spec: \<open>Meta.AddSubMeta\<close> registers the sub-meta of one file.\<close>

definition AddSubMeta :: "Meta \<Rightarrow> string \<Rightarrow> string \<Rightarrow> error option \<Rightarrow> Meta \<times> error option" where
  "AddSubMeta m key sub io =
     (case io of
        Some e \<Rightarrow> (m, Some e)
      | None \<Rightarrow> (m\<lparr>subMetas := AList.update key sub (subMetas m)\<rparr>, None))"

text \<open>Modelled from the spec: \<open>Meta.RemoveSubMeta\<close> removes the sub-meta of one file.\<close>

definition RemoveSubMeta :: "Meta \<Rightarrow> string \<Rightarrow> Meta" where
  "RemoveSubMeta m key = m\<lparr>subMetas := AList.delete key (subMetas m)\<rparr>"

section \<open>Reader\<close>

text \<open>
  The struct \<open>Reader\<close>. Go maps are association lists with \<open>map_of\<close>, \<open>AList.update\<close>
  and \<open>AList.delete\<close>; the order of the list stands for one order in which \<open>range\<close>
  may visit the map. The two channels are unbuffered, so all the struct holds of them
  is whether they were closed. The mutexes are left out: every function below runs as
  one atomic block, and the points where another goroutine matters are inputs.
\<close>

record Reader =
  started :: bool
  mr_status :: status
  fileReaders :: "(string \<times> ActiveReader) list"
  curFile :: string
  headRegexp :: "string option"
  cacheMap :: "(string \<times> string) list"
  msgChan_closed :: bool
  errChan_closed :: bool
  meta :: Meta
  logPathPattern :: string
  expire :: int
  statInterval :: int
  maxOpenFiles :: int
  whence :: string
  mr_stats :: string

text \<open>Reading a Go \<open>map[string]string\<close>: a missing key reads as the empty string.\<close>

definition lookup :: "(string \<times> string) list \<Rightarrow> string \<Rightarrow> string" where
  "lookup m k = (case map_of m k of None \<Rightarrow> [] | Some v \<Rightarrow> v)"

subsection \<open>NewReader\<close>

text \<open>
  The configuration lookups are external (\<open>conf.MapConf\<close>); \<open>Conf\<close> holds what each
  lookup finds, \<open>None\<close> for a key that is not set. \<open>time.ParseDuration\<close> and
  \<open>jsoniter.Unmarshal\<close> are parameters. \<open>Unmarshal\<close> fills the map it is given and may
  fail half-way: it returns the map as it left it, and the error.
\<close>

record Conf =
  conf_logPath :: "string option"
  conf_whence :: "string option"
  conf_expire :: "string option"
  conf_statInterval :: "string option"
  conf_maxOpenFiles :: "int option"

definition GetOr :: "'a option \<Rightarrow> 'a \<Rightarrow> 'a" where
  "GetOr v deflt = (case v of None \<Rightarrow> deflt | Some x \<Rightarrow> x)"

definition load_cacheMap ::
  "Meta \<Rightarrow> (string \<Rightarrow> (string \<times> string) list \<times> error option) \<Rightarrow> (string \<times> string) list" where
  "load_cacheMap m Unmarshal =
     (let bufsize = (case ReadBufMeta m of Inl err \<Rightarrow> 0 | Inr n \<Rightarrow> n) in
      if bufsize > 0 then
        (case ReadBuf m bufsize of
           Inl err \<Rightarrow> []
         | Inr b \<Rightarrow> fst (Unmarshal b))
      else [])"

definition NewReader ::
  "Meta \<Rightarrow> Conf \<Rightarrow> (string \<Rightarrow> error + int) \<Rightarrow>
   (string \<Rightarrow> (string \<times> string) list \<times> error option) \<Rightarrow> error + Reader" where
  "NewReader m conf ParseDuration Unmarshal =
     (case conf_logPath conf of
        None \<Rightarrow> Inl (Failure ''log_path'')
      | Some lp \<Rightarrow>
     (case ParseDuration (GetOr (conf_expire conf) ''24h'') of
        Inl err \<Rightarrow> Inl err
      | Inr ex \<Rightarrow>
     (case ParseDuration (GetOr (conf_statInterval conf) ''3m'') of
        Inl err \<Rightarrow> Inl err
      | Inr si \<Rightarrow>
        Inr \<lparr> started = False,
              mr_status = StatusInit,
              fileReaders = [],
              curFile = [],
              headRegexp = None,
              cacheMap = load_cacheMap m Unmarshal,
              msgChan_closed = False,
              errChan_closed = False,
              meta = m,
              logPathPattern = lp,
              expire = ex,
              statInterval = si,
              maxOpenFiles = GetOr (conf_maxOpenFiles conf) 256,
              whence = GetOr (conf_whence conf) ''oldest'',
              mr_stats = [] \<rparr>)))"

subsection \<open>Expire\<close>

text \<open>
  For each tracked path the environment gives what \<open>os.Stat\<close> and \<open>time.Now()\<close> answer
  in \<open>expired\<close>, and what \<open>Close\<close> of the tailer meets.
\<close>

record ExpireEnv =
  exp_stat :: "error + FileInfo"
  exp_now :: int
  exp_cerr :: "error option"
  exp_stoppedAt :: "nat \<Rightarrow> bool"

text \<open>
  The loop of \<open>Expire\<close> over the tracked tailers. An expired tailer is closed and
  deleted from \<open>fileReaders\<close>, \<open>cacheMap\<close> and the sub-metas; the closed tailers are
  returned next to the reader.
\<close>

fun expire_all ::
  "(string \<Rightarrow> ExpireEnv) \<Rightarrow> (string \<times> ActiveReader) list \<Rightarrow> Reader \<Rightarrow> Reader \<times> ActiveReader list" where
  "expire_all env [] mr = (mr, [])"
| "expire_all env ((path, ar) # rest) mr =
     (if expired ar (expire mr) (exp_stat (env path)) (exp_now (env path)) then
        (let ar1 = fst (ar_Close ar (exp_cerr (env path)) (exp_stoppedAt (env path)));
             mr1 = mr\<lparr>fileReaders := AList.delete path (fileReaders mr),
                      cacheMap := AList.delete path (cacheMap mr),
                      meta := RemoveSubMeta (meta mr) path\<rparr>;
             (mr2, closed) = expire_all env rest mr1
         in (mr2, ar1 # closed))
      else expire_all env rest mr)"

definition Expire :: "Reader \<Rightarrow> (string \<Rightarrow> ExpireEnv) \<Rightarrow> Reader \<times> ActiveReader list" where
  "Expire mr env =
     (if mr_status mr = StatusStopped then (mr, [])
      else expire_all env (fileReaders mr) mr)"

subsection \<open>StatLogPath\<close>

text \<open>
  For each match of the glob the environment gives what \<open>GetRealPath\<close> and
  \<open>time.Now()\<close> answer, how the constructors of \<open>NewActiveReader\<close>, \<open>br.SetMode\<close> and
  \<open>meta.AddSubMeta\<close> fare, and whether another goroutine has run the first statement
  of \<open>Reader.Close\<close> (the store of \<open>StatusStopped\<close>) before the status is loaded under
  the map lock, or between that load and the one that guards \<open>go ar.Run()\<close>.
\<close>

record MatchEnv =
  real :: "error + string \<times> FileInfo"
  now :: int
  newEnv :: NewEnv
  SetMode_err :: "error option"
  AddSubMeta_err :: "error option"
  closed_before_register :: bool
  closed_before_run :: bool

text \<open>
  What happened to one match: the four \<open>continue\<close>s before a tailer exists, the failure of
  \<open>NewActiveReader\<close> with the error sent on \<open>errChan\<close>, or the new tailer with whether
  it was put into \<open>fileReaders\<close> and whether \<open>go ar.Run()\<close> was executed.
\<close>

datatype outcome =
    StatFailed
  | Directory
  | Collecting
  | Stale
  | NewFailed error
  | Created ActiveReader bool bool

definition store_stopped :: "Reader \<Rightarrow> Reader" where
  "store_stopped mr = mr\<lparr>mr_status := StatusStopped\<rparr>"

definition setStatsError :: "Reader \<Rightarrow> string \<Rightarrow> Reader" where
  "setStatsError mr err = mr\<lparr>mr_stats := err\<rparr>"

definition stale :: "Reader \<Rightarrow> string \<Rightarrow> FileInfo \<Rightarrow> int \<Rightarrow> bool" where
  "stale mr cacheline fi t = (cacheline = [] \<and> ModTime fi + expire mr < t)"

text \<open>The optional \<open>ar.br.SetMode\<close> with the head pattern; a failure is only recorded.\<close>

definition set_head_mode ::
  "Reader \<Rightarrow> string \<Rightarrow> ActiveReader \<Rightarrow> error option \<Rightarrow> ActiveReader \<times> Reader" where
  "set_head_mode mr rp ar serr =
     (case headRegexp mr of
        None \<Rightarrow> (ar, mr)
      | Some re \<Rightarrow>
          (case serr of
             None \<Rightarrow> (ar\<lparr>br := (br ar)\<lparr>br_mode := Some re\<rparr>\<rparr>, mr)
           | Some err \<Rightarrow>
               (ar, setStatsError mr (''Runner['' @ RunnerName (meta mr) @
                  ''] NewActiveReader for matches '' @ rp @
                  '' SetMode error '' @ Error_text err))))"

text \<open>
  The block under the map lock: unless the status reads \<open>StatusStopped\<close>, the sub-meta
  is added (an error of \<open>AddSubMeta\<close> is only logged) and the tailer is stored in
  \<open>fileReaders\<close>. The result says whether the tailer was stored.
\<close>

definition register :: "Reader \<Rightarrow> string \<Rightarrow> ActiveReader \<Rightarrow> MatchEnv \<Rightarrow> Reader \<times> bool" where
  "register mr rp ar env =
     (let mr1 = (if closed_before_register env then store_stopped mr else mr) in
      if mr_status mr1 \<noteq> StatusStopped then
        (mr1\<lparr>meta := fst (AddSubMeta (meta mr1) rp (br_Meta (br ar)) (AddSubMeta_err env)),
             fileReaders := AList.update rp ar (fileReaders mr1)\<rparr>, True)
      else (mr1, False))"

text \<open>The second load of the status, which guards \<open>go ar.Run()\<close>; the result says whether it ran.\<close>

definition launch :: "Reader \<Rightarrow> MatchEnv \<Rightarrow> Reader \<times> bool" where
  "launch mr env =
     (let mr1 = (if closed_before_run env then store_stopped mr else mr) in
      (mr1, mr_status mr1 \<noteq> StatusStopped))"

definition add_match :: "Reader \<Rightarrow> string \<Rightarrow> string \<Rightarrow> string \<Rightarrow> MatchEnv \<Rightarrow> Reader \<times> outcome" where
  "add_match mr mc rp cacheline env =
     (case NewActiveReader mc rp (whence mr) (RunnerName (meta mr)) (newEnv env) of
        Inl err \<Rightarrow>
          (mr, NewFailed (Failure (''runner['' @ RunnerName (meta mr) @
                 ''] NewActiveReader for matches '' @ rp @ '' error '' @ Error_text err)))
      | Inr ar0 \<Rightarrow>
          (let (ar, mr1) = set_head_mode mr rp (ar0\<lparr>readcache := cacheline\<rparr>) (SetMode_err env);
               (mr2, registered) = register mr1 rp ar env;
               (mr3, run) = launch mr2 env
           in (mr3, Created ar registered run)))"

definition stat_match :: "Reader \<Rightarrow> string \<Rightarrow> MatchEnv \<Rightarrow> Reader \<times> outcome" where
  "stat_match mr mc env =
     (case real env of
        Inl err \<Rightarrow> (mr, StatFailed)
      | Inr (rp, fi) \<Rightarrow>
          if IsDir fi then (mr, Directory)
          else if map_of (fileReaders mr) rp \<noteq> None then (mr, Collecting)
          else
            (let cacheline = lookup (cacheMap mr) rp in
             if stale mr cacheline fi (now env) then (mr, Stale)
             else add_match mr mc rp cacheline env))"

fun stat_matches :: "Reader \<Rightarrow> (string \<times> MatchEnv) list \<Rightarrow> Reader \<times> outcome list" where
  "stat_matches mr [] = (mr, [])"
| "stat_matches mr ((mc, env) # rest) =
     (let (mr1, out) = stat_match mr mc env; (mr2, outs) = stat_matches mr1 rest
      in (mr2, out # outs))"

text \<open>\<open>globbed\<close> is what \<open>filepath.Glob(mr.logPathPattern)\<close> returns, each match with its environment.\<close>

definition StatLogPath :: "Reader \<Rightarrow> error + (string \<times> MatchEnv) list \<Rightarrow> Reader \<times> outcome list" where
  "StatLogPath mr globbed =
     (if int (length (fileReaders mr)) \<ge> maxOpenFiles mr then (mr, [])
      else
        (case globbed of
           Inl err \<Rightarrow>
             (setStatsError mr (''Runner['' @ RunnerName (meta mr) @
                ''] stat logPathPattern error '' @ Error_text err), [])
         | Inr ms \<Rightarrow> stat_matches mr ms))"

subsection \<open>SyncMeta\<close>

text \<open>
  The loop of \<open>SyncMeta\<close> over the tracked tailers: each one syncs its line source and
  hands over its pending line, and a nonempty line is stored under the tailer's real path.
\<close>

fun sync_all ::
  "(string \<times> ActiveReader) list \<Rightarrow> (string \<times> string) list \<Rightarrow>
   (string \<times> ActiveReader) list \<times> (string \<times> string) list" where
  "sync_all [] cm = ([], cm)"
| "sync_all ((path, ar) # rest) cm =
     (let (ar1, rc) = ar_SyncMeta ar;
          cm1 = (if rc = [] then cm else AList.update (realpath ar1) rc cm);
          (rest1, cm2) = sync_all rest cm1
      in ((path, ar1) # rest1, cm2))"

text \<open>
  \<open>Marshal\<close> is \<open>jsoniter.Marshal\<close> on the cache map; \<open>io\<close> is the I/O error
  \<open>meta.WriteBuf\<close> meets, if any.
\<close>

definition mr_SyncMeta ::
  "Reader \<Rightarrow> ((string \<times> string) list \<Rightarrow> error + string) \<Rightarrow> error option \<Rightarrow> Reader" where
  "mr_SyncMeta mr Marshal io =
     (let (ars, cm) = sync_all (fileReaders mr) (cacheMap mr);
          mr1 = mr\<lparr>fileReaders := ars, cacheMap := cm\<rparr>
      in case Marshal cm of
           Inl err \<Rightarrow> mr1
         | Inr b \<Rightarrow> mr1\<lparr>meta := fst (WriteBuf (meta mr1) b (length b) io)\<rparr>)"

subsection \<open>Close\<close>




subsection \<open>ReadLine\<close>









section \<open>Derived notions used in the properties\<close>

text \<open>
  The tracked set is keyed by real path: every key occurs once and is the real path of
  its tailer. \<open>NewReader\<close> starts with the empty set and \<open>StatLogPath\<close> only stores a
  tailer under its own real path.
\<close>

definition tracked_ok :: "(string \<times> ActiveReader) list \<Rightarrow> bool" where
  "tracked_ok ars = (distinct (map fst ars) \<and> list_all (\<lambda>(path, ar). realpath ar = path) ars)"


text \<open>Any number of calls of \<open>ActiveReader.Close\<close> on one tailer, with no step of its run loop between them.\<close>

fun Close_many :: "ActiveReader \<Rightarrow> (error option \<times> (nat \<Rightarrow> bool)) list \<Rightarrow> ActiveReader" where
  "Close_many ar [] = ar"
| "Close_many ar ((cerr, stoppedAt) # cs) = Close_many (fst (ar_Close ar cerr stoppedAt)) cs"



section \<open>Concrete inputs\<close>

definition hour :: int where
  "hour = 3600000000000"

definition ParseDuration0 :: "string \<Rightarrow> error + int" where
  "ParseDuration0 s =
     (if s = ''24h'' then Inr (24 * hour)
      else if s = ''3m'' then Inr 180000000000
      else Inl (Failure ''time: invalid duration''))"

definition meta0 :: Meta where
  "meta0 = \<lparr> Dir = ''meta'', RunnerName = ''r1'', buf_file = None, buf_writes = 0, subMetas = [] \<rparr>"

definition conf1 :: Conf where
  "conf1 = \<lparr> conf_logPath = Some ''logs/app-*.log'', conf_whence = None, conf_expire = None,
             conf_statInterval = None, conf_maxOpenFiles = Some 1 \<rparr>"

definition new_ok :: NewEnv where
  "new_ok = \<lparr> NewMeta_err = None, NewSingleFile_err = None, NewReaderSize_err = None \<rparr>"

text \<open>A regular file \<open>p\<close>, reached under its own name, last modified at \<open>mtime\<close>, seen at \<open>t\<close>.\<close>

definition file_env :: "string \<Rightarrow> int \<Rightarrow> int \<Rightarrow> MatchEnv" where
  "file_env p mtime t =
     \<lparr> real = Inr (p, \<lparr> IsDir = False, ModTime = mtime \<rparr>), now = t, newEnv = new_ok,
       SetMode_err = None, AddSubMeta_err = None,
       closed_before_register = False, closed_before_run = False \<rparr>"

text \<open>A serialisation of the one cache map used in the examples, and its inverse.\<close>

definition Marshal0 :: "(string \<times> string) list \<Rightarrow> error + string" where
  "Marshal0 cm =
     (if cm = [] then Inr ''{}''
      else if cm = [(''logs/app-1.log'', ''line 7'')] then Inr ''{logs/app-1.log:line 7}''
      else Inl (Failure ''unsupported''))"

definition Unmarshal0 :: "string \<Rightarrow> (string \<times> string) list \<times> error option" where
  "Unmarshal0 b =
     (if b = ''{}'' then ([], None)
      else if b = ''{logs/app-1.log:line 7}'' then ([(''logs/app-1.log'', ''line 7'')], None)
      else ([], Some (Failure ''unsupported'')))"

text \<open>The reader of \<open>conf1\<close> over the empty store: at most one open file.\<close>

definition reader1 :: Reader where
  "reader1 =
     \<lparr> started = False, mr_status = StatusInit, fileReaders = [], curFile = [],
       headRegexp = None, cacheMap = [], msgChan_closed = False, errChan_closed = False,
       meta = meta0, logPathPattern = ''logs/app-*.log'', expire = 24 * hour,
       statInterval = 180000000000, maxOpenFiles = 1, whence = ''oldest'', mr_stats = [] \<rparr>"

text \<open>What \<open>NewActiveReader\<close> builds for \<open>logs/app-1.log\<close>.\<close>

definition tailer_new :: ActiveReader where
  "tailer_new =
     \<lparr> br = \<lparr> br_closed = False, br_mode = None, br_Meta = ''logs_app-1.log'', br_synced = 0 \<rparr>,
       realpath = ''logs/app-1.log'', originpath = ''logs/app-1.log'', readcache = [],
       status = StatusInit, inactive = 1, runnerName = ''r1'', emptyLineCnt = 0, stats = [] \<rparr>"

text \<open>
  The same tailer in its run loop: \<open>tailer1\<close> holds the pending line \<open>line 7\<close> after
  five empty reads, \<open>tailer_idle\<close> holds no line and is marked active.
\<close>

definition tailer1 :: ActiveReader where
  "tailer1 = tailer_new\<lparr>readcache := ''line 7'', status := StatusRunning, emptyLineCnt := 5\<rparr>"

definition tailer_idle :: ActiveReader where
  "tailer_idle = tailer_new\<lparr>status := StatusRunning, inactive := 0\<rparr>"

text \<open>The tailer that a fresh reader seeds with the cached line, and the readers around it.\<close>

definition tailer2 :: ActiveReader where
  "tailer2 = tailer_new\<lparr>readcache := ''line 7''\<rparr>"

definition reader_tracking :: Reader where
  "reader_tracking = reader1\<lparr>fileReaders := [(''logs/app-1.log'', tailer1)]\<rparr>"

definition meta_synced :: Meta where
  "meta_synced = meta0\<lparr>buf_file := Some (''{logs/app-1.log:line 7}'', 23), buf_writes := 1\<rparr>"

definition reader2 :: Reader where
  "reader2 = reader1\<lparr>cacheMap := [(''logs/app-1.log'', ''line 7'')], meta := meta_synced\<rparr>"

definition reader3 :: Reader where
  "reader3 =
     reader2\<lparr>fileReaders := [(''logs/app-1.log'', tailer2)],
             meta := meta_synced\<lparr>subMetas := [(''logs/app-1.log'', ''logs_app-1.log'')]\<rparr>\<rparr>"

text \<open>
  A reader whose only tailer has handed its line over, with the line still in the cache;
  and the tracking reader and its tailer after \<open>Close\<close> returned.
\<close>

definition reader_drained :: Reader where
  "reader_drained = reader2\<lparr>fileReaders := [(''logs/app-1.log'', tailer_idle)]\<rparr>"

definition tailer_closed :: ActiveReader where
  "tailer_closed =
     tailer1\<lparr>br := \<lparr> br_closed = True, br_mode = None, br_Meta = ''logs_app-1.log'', br_synced = 1 \<rparr>,
             status := StatusStopped\<rparr>"

definition reader_closed :: Reader where
  "reader_closed =
     reader_tracking\<lparr>mr_status := StatusStopped,
                     fileReaders := [(''logs/app-1.log'', tailer_closed)],
                     cacheMap := [(''logs/app-1.log'', ''line 7'')],
                     msgChan_closed := True, errChan_closed := True,
                     meta := meta_synced\<rparr>"

text \<open>Two new files seen in one pass, both modified at the time of the pass.\<close>

definition two_files :: "(string \<times> MatchEnv) list" where
  "two_files =
     [(''logs/app-1.log'', file_env ''logs/app-1.log'' 0 0),
      (''logs/app-2.log'', file_env ''logs/app-2.log'' 0 0)]"

text \<open>A match during which the reader was closed before the tailer could be stored.\<close>

definition closing_env :: MatchEnv where
  "closing_env = (file_env ''logs/app-1.log'' 0 0)\<lparr>closed_before_register := True\<rparr>"

definition no_wait :: "string \<Rightarrow> error option \<times> (nat \<Rightarrow> bool)" where
  "no_wait path = (None, \<lambda>n. True)"

definition input0 :: run_input where
  "input0 = \<lparr> rd_line = [], rd_err = None, sel = SendDone \<rparr>"

definition input_eof :: run_input where
  "input_eof = \<lparr> rd_line = [], rd_err = Some EOF, sel = TimerTick \<rparr>"

section \<open>Evaluation rules for the concrete inputs\<close>

lemmas example_defs =
  reader1_def reader2_def reader3_def reader_tracking_def reader_drained_def reader_closed_def
  tailer_new_def tailer1_def tailer2_def tailer_idle_def tailer_closed_def
  meta0_def meta_synced_def conf1_def new_ok_def file_env_def closing_env_def two_files_def
  no_wait_def input0_def input_eof_def hour_def Marshal0_def Unmarshal0_def ParseDuration0_def

lemmas model_defs =
  stat_match_def add_match_def NewActiveReader_def set_head_mode_def register_def launch_def
  AddSubMeta_def lookup_def stale_def rpath_of_def store_stopped_def Let_def

section \<open>Lemmas about ActiveReader\<close>


lemma NewActiveReader_fields:
  "NewActiveReader mc rp w rn env = Inr ar \<Longrightarrow>
   realpath ar = rp \<and> originpath ar = mc \<and> readcache ar = [] \<and> status ar = StatusInit \<and>
   inactive ar = 1 \<and> emptyLineCnt ar = 0 \<and> \<not> br_closed (br ar)"
  by (auto simp: NewActiveReader_def split: option.splits)

lemma ar_Close_idle:
  "status ar \<noteq> StatusRunning \<Longrightarrow>
   ar_Close ar cerr w = (ar\<lparr>br := (br ar)\<lparr>br_closed := True\<rparr>\<rparr>, cerr, 0)"
  by (simp add: ar_Close_def CompareAndSwap_def)

lemma Close_many_Init: "status ar = StatusInit \<Longrightarrow> status (Close_many ar cs) = StatusInit"
  by (induction cs arbitrary: ar) (auto simp: ar_Close_idle)


subsection \<open>The run loop\<close>

text \<open>A run that has returned or panicked has no further effect.\<close>

lemma Run_step_done:
  "l = Returned \<or> l = Panicked \<Longrightarrow> Run_step i (ar, l) = ((ar, l), [])"
  by (auto simp: Run_step_def)

lemma Run_events_done:
  "l = Returned \<or> l = Panicked \<Longrightarrow> snd (Run_events evs (ar, l)) = []"
proof (induction evs arbitrary: ar)
  case Nil
  then show ?case by simp
next
  case (Cons e evs)
  then show ?case
    by (cases e) (auto simp: Run_step_done split_beta)
qed

text \<open>
  With a pending line, a step either has no effect and keeps the line, or returns or
  panics without effect, or delivers exactly that line.
\<close>

lemma Run_step_pending:
  assumes "readcache ar \<noteq> []"
  shows "(\<exists>ar'. Run_step i (ar, l) = ((ar', Returned), []))
       \<or> (\<exists>ar'. Run_step i (ar, l) = ((ar', Panicked), []))
       \<or> (\<exists>ar' l'. Run_step i (ar, l) = ((ar', l'), []) \<and> readcache ar' = readcache ar \<and>
                     originpath ar' = originpath ar)
       \<or> (\<exists>s'. Run_step i (ar, l) = (s', [Delivered \<lparr>result = readcache ar, logpath = originpath ar\<rparr>]))"
proof (cases l)
  case NotStarted
  then show ?thesis by (auto simp: Run_step_def Run_enter_def CompareAndSwap_def)
next
  case LoopTop
  with assms show ?thesis by (auto simp: Run_step_def Run_outer_def)
next
  case Sending
  with assms show ?thesis
    by (cases "sel i") (auto simp: Run_step_def Run_inner_def Let_def)
next
  case Returned
  then show ?thesis by (simp add: Run_step_def)
next
  case Panicked
  then show ?thesis by (simp add: Run_step_def)
qed

lemma Run_events_pending:
  "readcache ar \<noteq> [] \<Longrightarrow>
   snd (Run_events evs (ar, l)) = [] \<or>
   (\<exists>rest. snd (Run_events evs (ar, l)) =
            Delivered \<lparr>result = readcache ar, logpath = originpath ar\<rparr> # rest)"
proof (induction evs arbitrary: ar l)
  case Nil
  then show ?case by simp
next
  case (Cons e evs)
  show ?case
  proof (cases e)
    case StopRequested
    have "readcache (request_stop ar) = readcache ar" "originpath (request_stop ar) = originpath ar"
      by (simp_all add: request_stop_def)
    with Cons.IH [of "request_stop ar" l] Cons.prems StopRequested show ?thesis by simp
  next
    case (Step i)
    from Run_step_pending [OF Cons.prems, of i l]
    consider ar' where "Run_step i (ar, l) = ((ar', Returned), [])"
      | ar' where "Run_step i (ar, l) = ((ar', Panicked), [])"
      | ar' l' where "Run_step i (ar, l) = ((ar', l'), [])" "readcache ar' = readcache ar"
                     "originpath ar' = originpath ar"
      | s' where "Run_step i (ar, l) = (s', [Delivered \<lparr>result = readcache ar, logpath = originpath ar\<rparr>])"
      by blast
    then show ?thesis
    proof cases
      case 1
      with Step show ?thesis by (simp add: split_beta Run_events_done)
    next
      case 2
      with Step show ?thesis by (simp add: split_beta Run_events_done)
    next
      case 3
      with Cons.IH [of ar' l'] Cons.prems Step show ?thesis by (simp add: split_beta)
    next
      case 4
      with Step show ?thesis by (simp add: split_beta)
    qed
  qed
qed

lemma Run_first_delivery:
  assumes "readcache ar \<noteq> []" and "status ar = StatusInit"
  shows "snd (Run_events [Step i, Step i, Step (i\<lparr>sel := SendDone\<rparr>)] (ar, NotStarted)) =
         [Delivered \<lparr>result = readcache ar, logpath = originpath ar\<rparr>]"
  using assms
  by (simp add: Run_step_def Run_enter_def CompareAndSwap_def Run_outer_def Run_inner_def
                stop_observed_def Let_def)



text \<open>Where the run loop writes the inactive flag.\<close>

lemma Run_after_read_inactive:
  "inactive (fst (fst (Run_after_read eof ar))) \<noteq> inactive ar \<Longrightarrow>
   inactive (fst (fst (Run_after_read eof ar))) = 1 \<and> readcache (fst (fst (Run_after_read eof ar))) = [] \<and>
   (eof \<or> emptyLineCnt (fst (fst (Run_after_read eof ar))) > 60 * 60)"
  by (auto simp: Run_after_read_def Let_def split: if_splits)

lemma Run_outer_inactive:
  assumes "inactive (fst (fst (Run_outer i ar))) \<noteq> inactive ar"
  shows "inactive (fst (fst (Run_outer i ar))) = 1 \<and> readcache (fst (fst (Run_outer i ar))) = [] \<and>
         (rd_err i = Some EOF \<or> emptyLineCnt (fst (fst (Run_outer i ar))) > 60 * 60)"
proof (cases "stop_observed ar \<or> readcache ar \<noteq> []")
  case True
  then have "inactive (fst (fst (Run_outer i ar))) = inactive ar"
    by (cases "stop_observed ar") (simp_all add: Run_outer_def finalize_def)
  with assms show ?thesis by simp
next
  case False
  show ?thesis
  proof (cases "rd_err i")
    case None
    with False assms Run_after_read_inactive [of False "ar\<lparr>readcache := rd_line i\<rparr>"]
    show ?thesis by (simp add: Run_outer_def Let_def)
  next
    case (Some err)
    show ?thesis
    proof (cases "err = EOF")
      case True
      with Some False assms Run_after_read_inactive [of True "ar\<lparr>readcache := rd_line i\<rparr>"]
      show ?thesis by (simp add: Run_outer_def Let_def)
    next
      case neq: False
      with Some False assms show ?thesis by (simp add: Run_outer_def Let_def)
    qed
  qed
qed

lemma Run_outer_sets_inactive:
  assumes "\<not> stop_observed ar" "readcache ar = []" "rd_line i = []"
      and "rd_err i = Some EOF \<or> rd_err i = None \<and> emptyLineCnt ar \<ge> 60 * 60"
  shows "inactive (fst (fst (Run_outer i ar))) = 1"
  using assms by (auto simp: Run_outer_def Run_after_read_def Let_def)

lemma Run_inner_clears:
  "readcache ar \<noteq> [] \<Longrightarrow>
   inactive (fst (fst (Run_inner i ar))) = 0 \<and> emptyLineCnt (fst (fst (Run_inner i ar))) = 0"
  by (cases "sel i") (auto simp: Run_inner_def Let_def finalize_def)

section \<open>Lemmas about Reader\<close>

subsection \<open>SyncMeta\<close>

lemma ar_SyncMeta_simps [simp]:
  "snd (ar_SyncMeta ar) = readcache ar"
  "realpath (fst (ar_SyncMeta ar)) = realpath ar"
  "readcache (fst (ar_SyncMeta ar)) = readcache ar"
  by (simp_all add: ar_SyncMeta_def)

lemma sync_all_map_of:
  "tracked_ok ars \<Longrightarrow>
   map_of (snd (sync_all ars cm)) p =
     (case map_of ars p of
        Some ar \<Rightarrow> if readcache ar = [] then map_of cm p else Some (readcache ar)
      | None \<Rightarrow> map_of cm p)"
proof (induction ars arbitrary: cm)
  case Nil
  then show ?case by simp
next
  case (Cons a ars)
  obtain path ar where a: "a = (path, ar)" by (cases a)
  from Cons.prems a have ok: "tracked_ok ars" and rp: "realpath ar = path"
    and fresh: "map_of ars path = None"
    by (auto simp: tracked_ok_def map_of_eq_None_iff)
  show ?case
  proof (cases "p = path")
    case True
    with Cons.IH [OF ok] a rp fresh show ?thesis
      by (simp add: split_beta Let_def update_conv' split: option.splits)
  next
    case False
    with Cons.IH [OF ok] a rp show ?thesis
      by (simp add: split_beta Let_def update_conv' split: option.splits)
  qed
qed

lemma sync_all_keys: "fst ` set cm \<subseteq> fst ` set (snd (sync_all ars cm))"
proof (induction ars arbitrary: cm)
  case Nil
  then show ?case by simp
next
  case (Cons a ars)
  obtain path ar where a: "a = (path, ar)" by (cases a)
  have "fst ` set cm \<subseteq> fst ` set (if readcache ar = [] then cm else AList.update (realpath ar) (readcache ar) cm)"
    by (auto simp: dom_update)
  also have "\<dots> \<subseteq> fst ` set (snd (sync_all ars (if readcache ar = [] then cm else AList.update (realpath ar) (readcache ar) cm)))"
    by (rule Cons.IH)
  finally show ?case using a by (cases "readcache ar = []") (simp_all add: split_beta Let_def)
qed

lemma cacheMap_SyncMeta: "cacheMap (mr_SyncMeta mr Marshal io) = snd (sync_all (fileReaders mr) (cacheMap mr))"
  by (simp add: mr_SyncMeta_def split_beta Let_def split: sum.splits)

lemma meta_SyncMeta_ok:
  "Marshal (snd (sync_all (fileReaders mr) (cacheMap mr))) = Inr b \<Longrightarrow>
   meta (mr_SyncMeta mr Marshal None) = (meta mr)\<lparr>buf_file := Some (b, length b), buf_writes := buf_writes (meta mr) + 1\<rparr>"
  by (simp add: mr_SyncMeta_def split_beta Let_def WriteBuf_def)

lemma meta_SyncMeta_writes:
  "buf_writes (meta (mr_SyncMeta mr Marshal io)) \<le> buf_writes (meta mr) + 1"
  by (simp add: mr_SyncMeta_def split_beta Let_def WriteBuf_def split: sum.splits option.splits)

lemma meta_SyncMeta_fail:
  "Marshal (snd (sync_all (fileReaders mr) (cacheMap mr))) = Inl e \<Longrightarrow>
   meta (mr_SyncMeta mr Marshal io) = meta mr"
  by (simp add: mr_SyncMeta_def split_beta Let_def)

subsection \<open>NewReader\<close>

lemma load_cacheMap_written:
  "buf_file m = Some (b, length b) \<Longrightarrow> b \<noteq> [] \<Longrightarrow> load_cacheMap m Unmarshal = fst (Unmarshal b)"
  by (simp add: load_cacheMap_def ReadBufMeta_def ReadBuf_def)

lemma NewReader_fresh:
  "NewReader m conf PD Unmarshal = Inr mr \<Longrightarrow>
   cacheMap mr = load_cacheMap m Unmarshal \<and> fileReaders mr = [] \<and> mr_status mr = StatusInit \<and>
   meta mr = m \<and> \<not> msgChan_closed mr \<and> \<not> errChan_closed mr"
  by (auto simp: NewReader_def split: option.splits sum.splits)

subsection \<open>StatLogPath\<close>

lemma set_head_mode_tailer:
  "set_head_mode mr rp ar serr = (ar', mr') \<Longrightarrow>
   readcache ar' = readcache ar \<and> originpath ar' = originpath ar \<and> realpath ar' = realpath ar \<and>
   status ar' = status ar \<and> inactive ar' = inactive ar \<and> emptyLineCnt ar' = emptyLineCnt ar \<and>
   br_closed (br ar') = br_closed (br ar)"
  by (auto simp: set_head_mode_def split: option.splits)

lemma set_head_mode_reader:
  "set_head_mode mr rp ar serr = (ar', mr') \<Longrightarrow>
   fileReaders mr' = fileReaders mr \<and> meta mr' = meta mr \<and> mr_status mr' = mr_status mr \<and>
   cacheMap mr' = cacheMap mr \<and> maxOpenFiles mr' = maxOpenFiles mr"
  by (auto simp: set_head_mode_def setStatsError_def split: option.splits)





lemma add_match_cases:
  "(\<exists>e. add_match mr mc rp cl env = (mr, NewFailed e)) \<or>
   (\<exists>ar0 ar mr1 mr2 registered mr3 run.
      NewActiveReader mc rp (whence mr) (RunnerName (meta mr)) (newEnv env) = Inr ar0 \<and>
      set_head_mode mr rp (ar0\<lparr>readcache := cl\<rparr>) (SetMode_err env) = (ar, mr1) \<and>
      register mr1 rp ar env = (mr2, registered) \<and>
      launch mr2 env = (mr3, run) \<and>
      add_match mr mc rp cl env = (mr3, Created ar registered run))"
proof (cases "NewActiveReader mc rp (whence mr) (RunnerName (meta mr)) (newEnv env)")
  case (Inl e)
  then show ?thesis by (simp add: add_match_def)
next
  case (Inr ar0)
  obtain ar mr1 where 1: "set_head_mode mr rp (ar0\<lparr>readcache := cl\<rparr>) (SetMode_err env) = (ar, mr1)"
    by (cases "set_head_mode mr rp (ar0\<lparr>readcache := cl\<rparr>) (SetMode_err env)")
  obtain mr2 registered where 2: "register mr1 rp ar env = (mr2, registered)"
    by (cases "register mr1 rp ar env")
  obtain mr3 run where 3: "launch mr2 env = (mr3, run)"
    by (cases "launch mr2 env")
  from Inr 1 2 3 have "add_match mr mc rp cl env = (mr3, Created ar registered run)"
    by (simp add: add_match_def)
  with Inr 1 2 3 show ?thesis by blast
qed


lemma add_match_Created:
  assumes "add_match mr mc rp cl env = (mr', Created ar registered run)"
  shows "readcache ar = cl \<and> originpath ar = mc \<and> realpath ar = rp \<and> status ar = StatusInit \<and>
         \<not> br_closed (br ar) \<and> inactive ar = 1"
proof -
  from add_match_cases [of mr mc rp cl env] assms obtain ar0 mr1 where
    n: "NewActiveReader mc rp (whence mr) (RunnerName (meta mr)) (newEnv env) = Inr ar0" and
    h: "set_head_mode mr rp (ar0\<lparr>readcache := cl\<rparr>) (SetMode_err env) = (ar, mr1)"
    by auto
  from NewActiveReader_fields [OF n] set_head_mode_tailer [OF h] show ?thesis by simp
qed


lemma stat_match_Created:
  "stat_match mr mc env = (mr', Created ar registered run) \<Longrightarrow>
   \<exists>rp fi. real env = Inr (rp, fi) \<and>
     add_match mr mc rp (lookup (cacheMap mr) rp) env = (mr', Created ar registered run)"
  by (auto simp: stat_match_def Let_def split: sum.splits if_splits prod.splits)


lemma StatLogPath_at_limit:
  "int (length (fileReaders mr)) \<ge> maxOpenFiles mr \<Longrightarrow> StatLogPath mr globbed = (mr, [])"
  by (simp add: StatLogPath_def)

subsection \<open>The tracked set stays keyed by real path\<close>

lemma set_update_subset: "set (AList.update k v al) \<subseteq> insert (k, v) (set al)"
  by (induction al) auto

lemma tracked_ok_update:
  "tracked_ok ars \<Longrightarrow> realpath ar = rp \<Longrightarrow> tracked_ok (AList.update rp ar ars)"
  using set_update_subset [of rp ar ars]
  by (auto simp: tracked_ok_def distinct_update list_all_iff)

lemma register_tracked_ok:
  "tracked_ok (fileReaders mr) \<Longrightarrow> realpath ar = rp \<Longrightarrow>
   tracked_ok (fileReaders (fst (register mr rp ar env)))"
  by (simp add: register_def Let_def store_stopped_def tracked_ok_update)

lemma launch_fileReaders: "fileReaders (fst (launch mr env)) = fileReaders mr"
  by (simp add: launch_def Let_def store_stopped_def)

lemma add_match_tracked_ok:
  assumes "tracked_ok (fileReaders mr)"
  shows "tracked_ok (fileReaders (fst (add_match mr mc rp cl env)))"
proof -
  from add_match_cases [of mr mc rp cl env]
  consider e where "add_match mr mc rp cl env = (mr, NewFailed e)"
    | ar0 ar mr1 mr2 registered mr3 run where
      "NewActiveReader mc rp (whence mr) (RunnerName (meta mr)) (newEnv env) = Inr ar0"
      "set_head_mode mr rp (ar0\<lparr>readcache := cl\<rparr>) (SetMode_err env) = (ar, mr1)"
      "register mr1 rp ar env = (mr2, registered)"
      "launch mr2 env = (mr3, run)"
      "add_match mr mc rp cl env = (mr3, Created ar registered run)"
    by blast
  then show ?thesis
  proof cases
    case 1
    with assms show ?thesis by simp
  next
    case 2
    from NewActiveReader_fields [OF 2(1)] set_head_mode_tailer [OF 2(2)]
    have rp: "realpath ar = rp" by simp
    from set_head_mode_reader [OF 2(2)] assms have "tracked_ok (fileReaders mr1)" by simp
    from register_tracked_ok [OF this rp, of env] 2(3) have "tracked_ok (fileReaders mr2)" by simp
    with launch_fileReaders [of mr2 env] 2(4,5) show ?thesis by simp
  qed
qed

lemma stat_match_tracked_ok:
  "tracked_ok (fileReaders mr) \<Longrightarrow> tracked_ok (fileReaders (fst (stat_match mr mc env)))"
  by (auto simp: stat_match_def Let_def add_match_tracked_ok split: sum.splits prod.splits)

lemma stat_matches_tracked_ok:
  "tracked_ok (fileReaders mr) \<Longrightarrow> tracked_ok (fileReaders (fst (stat_matches mr ms)))"
proof (induction ms arbitrary: mr)
  case Nil
  then show ?case by simp
next
  case (Cons m ms)
  obtain mc env where m: "m = (mc, env)" by (cases m)
  from Cons.IH [OF stat_match_tracked_ok [OF Cons.prems, of mc env]] m
  show ?case by (simp add: split_beta)
qed

lemma StatLogPath_tracked_ok:
  "tracked_ok (fileReaders mr) \<Longrightarrow> tracked_ok (fileReaders (fst (StatLogPath mr globbed)))"
  by (auto simp: StatLogPath_def setStatsError_def stat_matches_tracked_ok split: sum.splits)

lemma NewReader_tracked_ok:
  "NewReader m conf PD Unmarshal = Inr mr \<Longrightarrow> tracked_ok (fileReaders mr)"
  by (auto simp: NewReader_def tracked_ok_def split: option.splits sum.splits)

subsection \<open>Close\<close>





subsection \<open>ReadLine\<close>



section \<open>The maxOpenFiles limit\<close>

text \<open>
  Claim C1: the number of tracked tailers never exceeds \<open>maxOpenFiles\<close>, and no single
  discovery pass over several new matches pushes the count past the limit.
  \<open>StatLogPath\<close> compares the count with the limit once, before the glob, and not
  again inside the loop over the matches (lemma \<open>StatLogPath_at_limit\<close> is the check
  at the start). On the reader that \<open>NewReader\<close> builds for \<open>max_open_files = 1\<close>, a
  pass that finds two new files tracks both of them.
\<close>

theorem StatLogPath_two_new_files:
  "NewReader meta0 conf1 ParseDuration0 Unmarshal0 = Inr reader1
   \<and> maxOpenFiles reader1 = 1
   \<and> map fst (fileReaders (fst (StatLogPath reader1 (Inr two_files)))) =
       [''logs/app-1.log'', ''logs/app-2.log'']
   \<and> int (length (fileReaders (fst (StatLogPath reader1 (Inr two_files))))) > maxOpenFiles reader1"
proof -
  have 1: "NewReader meta0 conf1 ParseDuration0 Unmarshal0 = Inr reader1"
    by (simp add: NewReader_def load_cacheMap_def ReadBufMeta_def GetOr_def example_defs)
  have 2: "stat_match reader1 ''logs/app-1.log'' (file_env ''logs/app-1.log'' 0 0) =
           (reader1\<lparr>fileReaders := [(''logs/app-1.log'', tailer_new)],
                    meta := meta0\<lparr>subMetas := [(''logs/app-1.log'', ''logs_app-1.log'')]\<rparr>\<rparr>,
            Created tailer_new True True)"
    by (simp add: model_defs example_defs)
  have 3: "map fst (fileReaders (fst (stat_match
             (reader1\<lparr>fileReaders := [(''logs/app-1.log'', tailer_new)],
                    meta := meta0\<lparr>subMetas := [(''logs/app-1.log'', ''logs_app-1.log'')]\<rparr>\<rparr>)
             ''logs/app-2.log'' (file_env ''logs/app-2.log'' 0 0)))) =
           [''logs/app-1.log'', ''logs/app-2.log'']"
    by (simp add: model_defs example_defs)
  have 4: "map fst (fileReaders (fst (StatLogPath reader1 (Inr two_files)))) =
           [''logs/app-1.log'', ''logs/app-2.log'']"
    using 2 3 by (simp add: StatLogPath_def two_files_def split_beta reader1_def)
  have 5: "maxOpenFiles reader1 = 1" by (simp add: reader1_def)
  have "length (fileReaders (fst (StatLogPath reader1 (Inr two_files)))) =
        length (map fst (fileReaders (fst (StatLogPath reader1 (Inr two_files)))))" by simp
  also have "\<dots> = 2" by (simp only: 4) simp
  finally have 6: "int (length (fileReaders (fst (StatLogPath reader1 (Inr two_files))))) > maxOpenFiles reader1"
    using 5 by simp
  from 1 4 5 6 show ?thesis by simp
qed

section \<open>Closing the reader twice\<close>




section \<open>The pending line survives a restart\<close>

text \<open>
  Claim C3: let \<open>SyncMeta\<close> persist the cache while the tailer of \<open>P\<close> holds a nonempty
  pending line, the write succeeding and \<open>Unmarshal\<close> reading back the map that
  \<open>Marshal\<close> wrote. A fresh reader built by \<open>NewReader\<close> over that store has the line in
  its cache under \<open>P\<close>; when \<open>StatLogPath\<close> creates a tailer for \<open>P\<close>, its pending line is
  that line; and the run loop of that tailer delivers that line before it reads from the
  line source or delivers anything else: its effects are empty or begin with the delivery
  of that line, and they are exactly that delivery as soon as the consumer takes it.
\<close>

theorem pending_line_round_trip:
  assumes "tracked_ok (fileReaders mr)"
      and "map_of (fileReaders mr) P = Some ar" and "readcache ar \<noteq> []"
      and "Marshal (cacheMap (mr_SyncMeta mr Marshal None)) = Inr b" and "b \<noteq> []"
      and "map_of (fst (Unmarshal b)) = map_of (cacheMap (mr_SyncMeta mr Marshal None))"
      and "NewReader (meta (mr_SyncMeta mr Marshal None)) conf PD Unmarshal = Inr mr2"
      and "real env = Inr (P, fi)"
      and "stat_match mr2 mc env = (mr3, Created ar2 registered run)"
  shows "lookup (cacheMap mr2) P = readcache ar
       \<and> readcache ar2 = readcache ar
       \<and> (snd (Run_events evs (ar2, NotStarted)) = [] \<or>
           (\<exists>rest. snd (Run_events evs (ar2, NotStarted)) =
                    Delivered \<lparr>result = readcache ar, logpath = mc\<rparr> # rest))
       \<and> snd (Run_events [Step i, Step i, Step (i\<lparr>sel := SendDone\<rparr>)] (ar2, NotStarted)) =
           [Delivered \<lparr>result = readcache ar, logpath = mc\<rparr>]"
proof -
  let ?synced = "mr_SyncMeta mr Marshal None"
  have cm: "map_of (cacheMap ?synced) P = Some (readcache ar)"
    using assms(1-3) by (simp add: cacheMap_SyncMeta sync_all_map_of)
  from assms(4) have "buf_file (meta ?synced) = Some (b, length b)"
    by (simp add: cacheMap_SyncMeta meta_SyncMeta_ok)
  from load_cacheMap_written [OF this assms(5)]
  have "load_cacheMap (meta ?synced) Unmarshal = fst (Unmarshal b)" .
  with NewReader_fresh [OF assms(7)] have "cacheMap mr2 = fst (Unmarshal b)" by simp
  with assms(6) cm have 1: "lookup (cacheMap mr2) P = readcache ar"
    by (simp add: lookup_def)
  from stat_match_Created [OF assms(9)] assms(8)
  have "add_match mr2 mc P (lookup (cacheMap mr2) P) env = (mr3, Created ar2 registered run)"
    by auto
  from add_match_Created [OF this] 1
  have 2: "readcache ar2 = readcache ar" "originpath ar2 = mc" "status ar2 = StatusInit"
    by simp_all
  from 2 assms(3) have ne: "readcache ar2 \<noteq> []" by simp
  from Run_events_pending [OF ne, of evs NotStarted] Run_first_delivery [OF ne 2(3), of i] 1 2
  show ?thesis by simp
qed

theorem pending_line_round_trip_witness:
  "tracked_ok (fileReaders reader_tracking)
   \<and> map_of (fileReaders reader_tracking) ''logs/app-1.log'' = Some tailer1
   \<and> readcache tailer1 = ''line 7''
   \<and> Marshal0 (cacheMap (mr_SyncMeta reader_tracking Marshal0 None)) = Inr ''{logs/app-1.log:line 7}''
   \<and> map_of (fst (Unmarshal0 ''{logs/app-1.log:line 7}'')) =
       map_of (cacheMap (mr_SyncMeta reader_tracking Marshal0 None))
   \<and> NewReader (meta (mr_SyncMeta reader_tracking Marshal0 None)) conf1 ParseDuration0 Unmarshal0 = Inr reader2
   \<and> stat_match reader2 ''logs/app-1.log'' (file_env ''logs/app-1.log'' 0 0) = (reader3, Created tailer2 True True)
   \<and> lookup (cacheMap reader2) ''logs/app-1.log'' = ''line 7''
   \<and> readcache tailer2 = ''line 7''
   \<and> snd (Run_events [Step input0, Step input0, Step input0] (tailer2, NotStarted)) =
       [Delivered \<lparr>result = ''line 7'', logpath = ''logs/app-1.log''\<rparr>]"
proof -
  have h1: "tracked_ok (fileReaders reader_tracking)"
    by (simp add: tracked_ok_def reader_tracking_def reader1_def tailer1_def tailer_new_def)
  have h2: "map_of (fileReaders reader_tracking) ''logs/app-1.log'' = Some tailer1"
    by (simp add: reader_tracking_def reader1_def)
  have h3: "readcache tailer1 \<noteq> []" and h3': "readcache tailer1 = ''line 7''"
    by (simp_all add: tailer1_def)
  have sy: "mr_SyncMeta reader_tracking Marshal0 None =
            reader_tracking\<lparr>fileReaders := [(''logs/app-1.log'', fst (ar_SyncMeta tailer1))],
                            cacheMap := [(''logs/app-1.log'', ''line 7'')], meta := meta_synced\<rparr>"
    by (simp add: mr_SyncMeta_def reader_tracking_def reader1_def tailer1_def tailer_new_def
                  ar_SyncMeta_def Marshal0_def WriteBuf_def meta_synced_def meta0_def)
  have h4: "Marshal0 (cacheMap (mr_SyncMeta reader_tracking Marshal0 None)) = Inr ''{logs/app-1.log:line 7}''"
    by (simp add: sy Marshal0_def)
  have h5: "''{logs/app-1.log:line 7}'' \<noteq> []" by simp
  have h6: "map_of (fst (Unmarshal0 ''{logs/app-1.log:line 7}'')) =
            map_of (cacheMap (mr_SyncMeta reader_tracking Marshal0 None))"
    by (simp add: sy Unmarshal0_def)
  have h7: "NewReader (meta (mr_SyncMeta reader_tracking Marshal0 None)) conf1 ParseDuration0 Unmarshal0 = Inr reader2"
    by (simp add: sy NewReader_def conf1_def ParseDuration0_def GetOr_def load_cacheMap_def
                  ReadBufMeta_def ReadBuf_def meta_synced_def meta0_def Unmarshal0_def
                  reader2_def reader1_def)
  have h8: "real (file_env ''logs/app-1.log'' 0 0) = Inr (''logs/app-1.log'', \<lparr>IsDir = False, ModTime = 0\<rparr>)"
    by (simp add: file_env_def)
  have h9: "stat_match reader2 ''logs/app-1.log'' (file_env ''logs/app-1.log'' 0 0) = (reader3, Created tailer2 True True)"
    by (simp add: stat_match_def file_env_def reader2_def reader1_def lookup_def stale_def hour_def
                  add_match_def NewActiveReader_def new_ok_def set_head_mode_def register_def
                  launch_def AddSubMeta_def meta_synced_def meta0_def reader3_def tailer2_def
                  tailer_new_def rpath_of_def Let_def)
  from pending_line_round_trip [OF h1 h2 h3 h4 h5 h6 h7 h8 h9,
         of "[Step input0, Step input0, Step input0]" input0]
  have "lookup (cacheMap reader2) ''logs/app-1.log'' = ''line 7''
        \<and> readcache tailer2 = ''line 7''
        \<and> snd (Run_events [Step input0, Step input0, Step input0] (tailer2, NotStarted)) =
           [Delivered \<lparr>result = ''line 7'', logpath = ''logs/app-1.log''\<rparr>]"
    by (simp add: h3' input0_def)
  with h1 h2 h3' h4 h6 h7 h9 show ?thesis by simp
qed

section \<open>Which matches discovery skips as stale\<close>



section \<open>When a tailer is expired\<close>

text \<open>
  Claim C5: \<open>expired\<close> is true when the file no longer exists, false when \<open>os.Stat\<close>
  fails for any other reason, and otherwise true exactly when the modification time is
  older than now minus the duration and the inactive flag is set.
\<close>

theorem expired_cases:
  "expired ar d (Inl (NotExist m)) t = True \<and>
   expired ar d (Inl (Failure m)) t = False \<and>
   expired ar d (Inl EOF) t = False \<and>
   expired ar d (Inr fi) t = (ModTime fi < t - d \<and> inactive ar > 0)"
  by (auto simp: expired_def IsNotExist_def)

section \<open>A tailer created while the reader is being closed\<close>




section \<open>What SyncMeta changes\<close>

text \<open>
  Claim C7: after \<open>SyncMeta\<close> the cache entry of a path is the pending line of its tailer
  when that line is nonempty, and is what it was before otherwise (for a tailer with an
  empty line, and for a path that is not tracked); no key leaves the cache; and the
  store is written at most once, with the serialisation of the whole cache map.
\<close>

theorem SyncMeta_cache_frame:
  assumes "tracked_ok (fileReaders mr)"
  shows "map_of (cacheMap (mr_SyncMeta mr Marshal io)) p =
           (case map_of (fileReaders mr) p of
              Some ar \<Rightarrow> if readcache ar = [] then map_of (cacheMap mr) p else Some (readcache ar)
            | None \<Rightarrow> map_of (cacheMap mr) p)
         \<and> fst ` set (cacheMap mr) \<subseteq> fst ` set (cacheMap (mr_SyncMeta mr Marshal io))
         \<and> (Marshal (cacheMap (mr_SyncMeta mr Marshal io)) = Inr b \<longrightarrow>
              meta (mr_SyncMeta mr Marshal None) =
                (meta mr)\<lparr>buf_file := Some (b, length b), buf_writes := buf_writes (meta mr) + 1\<rparr>)
         \<and> buf_writes (meta (mr_SyncMeta mr Marshal io)) \<le> buf_writes (meta mr) + 1"
  using assms meta_SyncMeta_writes [of mr Marshal io]
  by (simp add: cacheMap_SyncMeta sync_all_map_of sync_all_keys meta_SyncMeta_ok)

theorem SyncMeta_cache_frame_witness:
  "tracked_ok (fileReaders reader_drained)
   \<and> map_of (fileReaders reader_drained) ''logs/app-1.log'' = Some tailer_idle
   \<and> readcache tailer_idle = []
   \<and> map_of (cacheMap (mr_SyncMeta reader_drained Marshal0 None)) ''logs/app-1.log'' = Some ''line 7''
   \<and> Marshal0 (cacheMap (mr_SyncMeta reader_drained Marshal0 None)) = Inr ''{logs/app-1.log:line 7}''
   \<and> meta (mr_SyncMeta reader_drained Marshal0 None) =
       (meta reader_drained)\<lparr>buf_file := Some (''{logs/app-1.log:line 7}'', 23), buf_writes := 2\<rparr>"
proof -
  have h: "tracked_ok (fileReaders reader_drained)"
    by (simp add: tracked_ok_def example_defs)
  have a: "map_of (fileReaders reader_drained) ''logs/app-1.log'' = Some tailer_idle"
    "readcache tailer_idle = []"
    "map_of (cacheMap reader_drained) ''logs/app-1.log'' = Some ''line 7''"
    "buf_writes (meta reader_drained) = 1"
    by (simp_all add: example_defs)
  have m: "Marshal0 (cacheMap (mr_SyncMeta reader_drained Marshal0 None)) = Inr ''{logs/app-1.log:line 7}''"
    by (simp add: mr_SyncMeta_def ar_SyncMeta_def example_defs)
  from SyncMeta_cache_frame [OF h, of Marshal0 None "''logs/app-1.log''" "''{logs/app-1.log:line 7}''"] a m h
  show ?thesis by simp
qed

section \<open>ReadLine returns within a second\<close>



section \<open>The inactive flag\<close>

text \<open>
  Claim C9, as the code has it: a tailer built by \<open>NewActiveReader\<close> starts with the
  inactive flag set and the empty-read counter at zero. The head of the run loop changes
  the flag only by setting it, after an empty read that met end-of-stream or that took
  the counter above 3600, and it does set the flag in these cases. With a pending line,
  the delivery loop clears the flag and resets the counter.
\<close>

theorem inactive_flag_protocol:
  "(NewActiveReader mc rp w rn env = Inr ar0 \<longrightarrow> inactive ar0 = 1 \<and> emptyLineCnt ar0 = 0)
   \<and> (inactive (fst (fst (Run_outer i ar))) \<noteq> inactive ar \<longrightarrow>
        inactive (fst (fst (Run_outer i ar))) = 1 \<and> readcache (fst (fst (Run_outer i ar))) = [] \<and>
        (rd_err i = Some EOF \<or> emptyLineCnt (fst (fst (Run_outer i ar))) > 60 * 60))
   \<and> (\<not> stop_observed ar1 \<and> readcache ar1 = [] \<and> rd_line i1 = [] \<and>
        (rd_err i1 = Some EOF \<or> rd_err i1 = None \<and> emptyLineCnt ar1 \<ge> 60 * 60) \<longrightarrow>
        inactive (fst (fst (Run_outer i1 ar1))) = 1)
   \<and> (readcache ar2 \<noteq> [] \<longrightarrow>
        inactive (fst (fst (Run_inner i2 ar2))) = 0 \<and> emptyLineCnt (fst (fst (Run_inner i2 ar2))) = 0)"
  using NewActiveReader_fields [of mc rp w rn env ar0] Run_outer_inactive [of i ar]
        Run_outer_sets_inactive [of ar1 i1] Run_inner_clears [of ar2 i2]
  by blast

text \<open>
  Claim C9 as stated, that a freshly constructed tailer has the flag clear, fails:
  \<open>NewActiveReader\<close> sets the flag.
\<close>

theorem new_tailer_starts_inactive:
  "NewActiveReader ''logs/app-1.log'' ''logs/app-1.log'' ''oldest'' ''r1'' new_ok = Inr tailer_new
   \<and> inactive tailer_new \<noteq> 0"
  by (simp add: NewActiveReader_def new_ok_def tailer_new_def rpath_of_def)

theorem inactive_flag_protocol_witness:
  "NewActiveReader ''logs/app-1.log'' ''logs/app-1.log'' ''oldest'' ''r1'' new_ok = Inr tailer_new
   \<and> inactive tailer_new = 1
   \<and> inactive tailer_idle = 0
   \<and> \<not> stop_observed tailer_idle \<and> readcache tailer_idle = []
   \<and> rd_line input_eof = [] \<and> rd_err input_eof = Some EOF
   \<and> inactive (fst (fst (Run_outer input_eof tailer_idle))) = 1
   \<and> readcache tailer1 \<noteq> [] \<and> inactive tailer1 = 1 \<and> emptyLineCnt tailer1 = 5
   \<and> inactive (fst (fst (Run_inner input0 tailer1))) = 0
   \<and> emptyLineCnt (fst (fst (Run_inner input0 tailer1))) = 0"
proof -
  have n: "NewActiveReader ''logs/app-1.log'' ''logs/app-1.log'' ''oldest'' ''r1'' new_ok = Inr tailer_new"
    by (simp add: NewActiveReader_def new_ok_def tailer_new_def rpath_of_def)
  have a: "\<not> stop_observed tailer_idle" "readcache tailer_idle = []" "inactive tailer_idle = 0"
    "rd_line input_eof = []" "rd_err input_eof = Some EOF"
    by (simp_all add: stop_observed_def tailer_idle_def tailer_new_def input_eof_def)
  have b: "readcache tailer1 \<noteq> []" "inactive tailer1 = 1" "emptyLineCnt tailer1 = 5"
    by (simp_all add: tailer1_def tailer_new_def)
  from inactive_flag_protocol [of "''logs/app-1.log''" "''logs/app-1.log''" "''oldest''" "''r1''"
         new_ok tailer_new input_eof tailer_idle tailer_idle input_eof tailer1 input0] n a b
  show ?thesis by simp
qed

section \<open>Closing a tailer that is not running\<close>

text \<open>
  Claim C10: when the status is not \<open>StatusRunning\<close>, \<open>Close\<close> closes the line source
  and returns its error at once, without a single polling sleep, and leaves the status as
  it was; so a tailer in \<open>StatusInit\<close> stays there however often it is closed while
  its run loop has not started.
\<close>

theorem ar_Close_not_running:
  assumes "status ar \<noteq> StatusRunning"
  shows "ar_Close ar cerr w = (ar\<lparr>br := (br ar)\<lparr>br_closed := True\<rparr>\<rparr>, cerr, 0)
         \<and> status (fst (ar_Close ar cerr w)) = status ar
         \<and> (status ar = StatusInit \<longrightarrow> status (Close_many ar cs) = StatusInit)"
  using assms by (simp add: ar_Close_idle Close_many_Init)

theorem ar_Close_not_running_witness:
  "status tailer_new = StatusInit
   \<and> ar_Close tailer_new None (\<lambda>n. False) =
       (tailer_new\<lparr>br := (br tailer_new)\<lparr>br_closed := True\<rparr>\<rparr>, None, 0)
   \<and> status (fst (ar_Close tailer_new None (\<lambda>n. False))) = StatusInit
   \<and> status (Close_many tailer_new [(None, \<lambda>n. False), (None, \<lambda>n. True)]) = StatusInit"
proof -
  have h: "status tailer_new \<noteq> StatusRunning" and h': "status tailer_new = StatusInit"
    by (simp_all add: tailer_new_def)
  from ar_Close_not_running [OF h, of None "\<lambda>n. False" "[(None, \<lambda>n. False), (None, \<lambda>n. True)]"] h'
  show ?thesis by (simp del: Close_many.simps)
qed

end
